theory Spec2Isabelle
  imports Complex_Main
begin

section \<open>Data model (database.py)\<close>

text \<open>
  A calendar date is represented by its proleptic Gregorian ordinal, the number that
  Python's \<^verbatim>\<open>date.toordinal()\<close> returns. The ISO strings the program stores
  (\<^verbatim>\<open>date.isoformat()\<close>) are equal, and ordered, exactly as these ordinals are, and
  \<^verbatim>\<open>today - timedelta(days=n)\<close> is subtraction of \<open>n\<close>. The SQLite columns that hold
  0 or 1 (\<^verbatim>\<open>completed\<close>, \<^verbatim>\<open>penalized\<close>, \<^verbatim>\<open>claimed\<close>, \<^verbatim>\<open>shield_active\<close>,
  \<^verbatim>\<open>pepper_mode\<close>) are booleans; every other integer column is an unbounded \<open>int\<close>.
\<close>

type_synonym date = int

text \<open>A row of table \<^verbatim>\<open>users\<close>; the primary key \<^verbatim>\<open>user_id\<close> is the key of the map
  that holds the rows. \<^verbatim>\<open>last_perfect_date\<close> is \<open>None\<close> for the default \<^verbatim>\<open>''\<close>.\<close>

record user =
  username :: string
  level :: int
  xp :: int
  hp :: int
  points :: int
  shield_active :: bool
  pepper_mode :: bool
  pepper_streak :: int
  last_perfect_date :: "date option"
  created_at :: string

text \<open>A row of table \<^verbatim>\<open>tasks\<close>.\<close>

record task =
  task_id :: int
  task_user_id :: int
  title :: string
  task_type :: string
  reminder_time :: string
  completed :: bool
  created_date :: date
  completed_at :: string
  penalized :: bool

text \<open>A row of table \<^verbatim>\<open>rewards\<close>; the primary key \<^verbatim>\<open>id\<close> is the key of the map.\<close>

record reward =
  reward_user_id :: int
  reward_title :: string
  cost :: int
  claimed :: bool
  claimed_at :: string

text \<open>The store: the three tables the progression engine reads and writes.\<close>

record db =
  users :: "int \<rightharpoonup> user"
  tasks :: "task list"
  rewards :: "int \<rightharpoonup> reward"

subsection \<open>Store operations\<close>

text \<open>The row that \<^verbatim>\<open>create_user\<close> inserts: the column defaults of the schema, with
  the name and the time of creation given.\<close>

definition new_user_row :: "string \<Rightarrow> string \<Rightarrow> user" where
  "new_user_row name now =
     \<lparr>username = name, level = 1, xp = 0, hp = 100, points = 0, shield_active = False,
      pepper_mode = False, pepper_streak = 0, last_perfect_date = None, created_at = now\<rparr>"

text \<open>The row that \<^verbatim>\<open>add_task\<close> inserts under the identifier \<open>tid\<close>.\<close>

definition new_task_row :: "int \<Rightarrow> int \<Rightarrow> string \<Rightarrow> string \<Rightarrow> string \<Rightarrow> date \<Rightarrow> task" where
  "new_task_row tid uid name ttype reminder day =
     \<lparr>task_id = tid, task_user_id = uid, title = name, task_type = ttype,
      reminder_time = reminder, completed = False, created_date = day,
      completed_at = [], penalized = False\<rparr>"

definition get_user :: "db \<Rightarrow> int \<Rightarrow> user option" where
  "get_user d user_id = users d user_id"

text \<open>\<^verbatim>\<open>update_user(user_id, **kwargs)\<close> is an SQL \<^verbatim>\<open>UPDATE ... WHERE user_id = ?\<close>:
  the assignments \<open>f\<close> are applied to the row if there is one, and nothing happens
  otherwise.\<close>

definition update_user :: "db \<Rightarrow> int \<Rightarrow> (user \<Rightarrow> user) \<Rightarrow> db" where
  "update_user d user_id f =
     (case users d user_id of
        None \<Rightarrow> d
      | Some u \<Rightarrow> d\<lparr>users := (users d)(user_id \<mapsto> f u)\<rparr>)"

definition get_task :: "db \<Rightarrow> int \<Rightarrow> task option" where
  "get_task d tid = find (\<lambda>t. task_id t = tid) (tasks d)"

text \<open>\<^verbatim>\<open>SELECT * FROM tasks WHERE user_id = ? AND created_date = ? ORDER BY id\<close>\<close>

definition get_tasks_by_date :: "db \<Rightarrow> int \<Rightarrow> date \<Rightarrow> task list" where
  "get_tasks_by_date d user_id iso_date =
     sort_key task_id
       (filter (\<lambda>t. task_user_id t = user_id \<and> created_date t = iso_date) (tasks d))"

definition complete_task :: "db \<Rightarrow> int \<Rightarrow> string \<Rightarrow> db" where
  "complete_task d tid now =
     d\<lparr>tasks := map (\<lambda>t. if task_id t = tid
                           then t\<lparr>completed := True, completed_at := now\<rparr> else t)
                    (tasks d)\<rparr>"

definition delete_task :: "db \<Rightarrow> int \<Rightarrow> db" where
  "delete_task d tid = d\<lparr>tasks := filter (\<lambda>t. task_id t \<noteq> tid) (tasks d)\<rparr>"

text \<open>\<^verbatim>\<open>UPDATE tasks SET penalized = 1 WHERE user_id = ? AND created_date = ? AND completed = 0\<close>\<close>

definition mark_tasks_penalized :: "db \<Rightarrow> int \<Rightarrow> date \<Rightarrow> db" where
  "mark_tasks_penalized d user_id iso_date =
     d\<lparr>tasks := map (\<lambda>t. if task_user_id t = user_id \<and> created_date t = iso_date
                              \<and> \<not> completed t
                           then t\<lparr>penalized := True\<rparr> else t)
                    (tasks d)\<rparr>"

definition get_reward :: "db \<Rightarrow> int \<Rightarrow> reward option" where
  "get_reward d rid = rewards d rid"

definition claim_reward :: "db \<Rightarrow> int \<Rightarrow> string \<Rightarrow> db" where
  "claim_reward d rid now =
     (case rewards d rid of
        None \<Rightarrow> d
      | Some r \<Rightarrow> d\<lparr>rewards := (rewards d)(rid \<mapsto> r\<lparr>claimed := True, claimed_at := now\<rparr>)\<rparr>)"

section \<open>Rewards for a completed task (handlers.py)\<close>

text \<open>Python's \<^verbatim>\<open>int(x)\<close> on a float truncates toward zero. The floats that occur
  (\<^verbatim>\<open>xp * 1.5\<close> and \<^verbatim>\<open>xp * 1.0\<close> for small integers) are represented exactly in
  binary floating point, so they are modelled by rationals.\<close>

definition py_int :: "rat \<Rightarrow> int" where
  "py_int r = (if 0 \<le> r then \<lfloor>r\<rfloor> else \<lceil>r\<rceil>)"

definition reward_table :: "string \<Rightarrow> int \<times> int \<times> int" where
  "reward_table ttype =
     (if ttype = ''focus'' then (50, 20, 0)
      else if ttype = ''important'' then (20, 10, 0)
      else if ttype = ''wish'' then (5, 2, 5)
      else (0, 0, 0))"

definition calc_rewards :: "string \<Rightarrow> bool \<Rightarrow> int \<times> int \<times> int" where
  "calc_rewards ttype pepper =
     (case reward_table ttype of (xp0, pts, hp0) \<Rightarrow>
        let mult = (if pepper then 3 / 2 else 1 :: rat)
        in (py_int (of_int xp0 * mult), py_int (of_int pts * mult), hp0))"

subsection \<open>Completing a task: \<^verbatim>\<open>task_done\<close>\<close>

text \<open>The level-up loop of \<^verbatim>\<open>task_done\<close>:
  \<^verbatim>\<open>while new_xp >= new_lvl * 100: new_xp -= new_lvl * 100; new_lvl += 1\<close>.
  It stops on every pair of integers: a level below 1 rises to 1, and from level 1 on
  each round takes at least 100 from a non-negative \<open>new_xp\<close>.\<close>

function level_up_loop :: "int \<Rightarrow> int \<Rightarrow> int \<times> int" where
  "level_up_loop new_xp new_lvl =
     (if new_xp \<ge> new_lvl * 100
      then level_up_loop (new_xp - new_lvl * 100) (new_lvl + 1)
      else (new_xp, new_lvl))"
  by pat_completeness auto
termination
  by (relation "measures [\<lambda>(x, l). nat (1 - l), \<lambda>(x, l). nat x]") auto

declare level_up_loop.simps [simp del]

text \<open>What a handler answers. \<open>User_missing\<close> stands for the \<^verbatim>\<open>TypeError\<close> that
  subscripting the \<^verbatim>\<open>None\<close> returned by \<^verbatim>\<open>get_user\<close> raises; nothing has been
  written to the store when it is raised.\<close>

datatype done_reply =
    Already_done_or_missing
  | Task_completed int int int bool
  | Done_user_missing

definition task_done :: "db \<Rightarrow> int \<Rightarrow> int \<Rightarrow> string \<Rightarrow> db \<times> done_reply" where
  "task_done d uid tid now =
     (case get_task d tid of
        None \<Rightarrow> (d, Already_done_or_missing)
      | Some t \<Rightarrow>
          if completed t then (d, Already_done_or_missing)
          else (case get_user d uid of
             None \<Rightarrow> (d, Done_user_missing)
           | Some u \<Rightarrow>
              (case calc_rewards (task_type t) (pepper_mode u) of (xp_g, pts_g, hp_g) \<Rightarrow>
              (case level_up_loop (xp u + xp_g) (level u) of (new_xp, new_lvl) \<Rightarrow>
                 let new_hp = min 100 (hp u + hp_g);
                     new_pts = points u + pts_g;
                     d1 = complete_task d tid now;
                     d2 = update_user d1 uid
                            (\<lambda>r. r\<lparr>xp := new_xp, level := new_lvl, hp := new_hp,
                                    points := new_pts\<rparr>)
                 in (d2, Task_completed xp_g pts_g hp_g (new_lvl > level u))))))"

subsection \<open>A reminder fires: \<^verbatim>\<open>_send_reminder\<close>\<close>

text \<open>The job reads the store and sends at most one message; the result is the
  message sent, as the pair of the addressee and the task it reminds of.\<close>

definition send_reminder :: "db \<Rightarrow> int \<Rightarrow> int \<Rightarrow> (int \<times> int) option" where
  "send_reminder d uid tid =
     (case get_task d tid of
        None \<Rightarrow> None
      | Some t \<Rightarrow> if completed t then None else Some (uid, task_id t))"

subsection \<open>The shop: \<^verbatim>\<open>shop_buy\<close>\<close>

datatype buy_reply =
    Not_enough_points int int
  | Bought
  | Buy_user_missing

definition prices :: "string \<Rightarrow> int" where
  "prices item =
     (if item = ''shield'' then 50 else if item = ''pepper'' then 100 else 0)"

definition shop_buy :: "db \<Rightarrow> int \<Rightarrow> string \<Rightarrow> db \<times> buy_reply" where
  "shop_buy d uid item =
     (case get_user d uid of
        None \<Rightarrow> (d, Buy_user_missing)
      | Some u \<Rightarrow>
          let price = prices item in
          if points u < price then (d, Not_enough_points price (points u))
          else
            let new_pts = points u - price in
            if item = ''shield''
            then (update_user d uid (\<lambda>r. r\<lparr>points := new_pts, shield_active := True\<rparr>),
                  Bought)
            else if item = ''pepper''
            then (update_user d uid (\<lambda>r. r\<lparr>points := new_pts, pepper_mode := True\<rparr>),
                  Bought)
            else (d, Bought))"

section \<open>The weekly completion rate (database.py)\<close>

text \<open>\<^verbatim>\<open>get_week_completion_rate\<close>: the rows counted are those with
  \<^verbatim>\<open>created_date >= week_ago AND created_date <= today_s\<close>, where
  \<^verbatim>\<open>week_ago = today - timedelta(days=7)\<close>. The quotient \<^verbatim>\<open>done / total * 100\<close> is
  a float in the source and an exact rational here.\<close>

definition get_week_completion_rate :: "db \<Rightarrow> int \<Rightarrow> date \<Rightarrow> rat" where
  "get_week_completion_rate d uid today =
     (let week_ago = today - 7;
          rows = filter (\<lambda>t. task_user_id t = uid \<and> created_date t \<ge> week_ago
                              \<and> created_date t \<le> today) (tasks d);
          total = length rows;
          ndone = length (filter completed rows)
      in if total > 0 then of_nat ndone / of_nat total * 100 else 0)"

text \<open>The rate as the specification words it, for comparison with the one above: the
  percentage of completed tasks among those created in the trailing seven days that
  include today, which are the days \<open>today - 6\<close> to \<open>today\<close>, and 0 when there is no
  such task.\<close>

definition weekly_completion_rate_spec :: "db \<Rightarrow> int \<Rightarrow> date \<Rightarrow> rat" where
  "weekly_completion_rate_spec d uid today =
     (let rows = filter (\<lambda>t. task_user_id t = uid \<and> today - 6 \<le> created_date t
                              \<and> created_date t \<le> today) (tasks d)
      in if rows = [] then 0
         else 100 * (of_nat (length (filter completed rows)) / of_nat (length rows)))"

section \<open>Claiming a reward (handlers.py)\<close>

text \<open>\<^verbatim>\<open>date.weekday()\<close>: Monday is 0 and Sunday is 6; day 1 of the ordinal count is a
  Monday.\<close>

definition weekday :: "date \<Rightarrow> int" where
  "weekday today = (today + 6) mod 7"

text \<open>\<^verbatim>\<open>show_rewards\<close> computes \<^verbatim>\<open>can_claim = is_sun and rate > 80\<close> and shows the
  claim buttons if it holds.\<close>

definition can_claim :: "date \<Rightarrow> rat \<Rightarrow> bool" where
  "can_claim today rate = (let is_sun = (weekday today = 6) in is_sun \<and> rate > 80)"

definition show_rewards :: "db \<Rightarrow> int \<Rightarrow> date \<Rightarrow> bool" where
  "show_rewards d uid today = can_claim today (get_week_completion_rate d uid today)"

datatype claim_reply =
    Reward_not_found
  | Conditions_not_met
  | Not_enough_for_reward int
  | Reward_claimed
  | Claim_user_missing

definition reward_claim :: "db \<Rightarrow> int \<Rightarrow> int \<Rightarrow> date \<Rightarrow> string \<Rightarrow> db \<times> claim_reply" where
  "reward_claim d uid rid today now =
     (case get_reward d rid of
        None \<Rightarrow> (d, Reward_not_found)
      | Some r \<Rightarrow>
          let is_sun = (weekday today = 6);
              rate = get_week_completion_rate d uid today
          in if \<not> is_sun \<or> rate \<le> 80 then (d, Conditions_not_met)
             else (case get_user d uid of
                None \<Rightarrow> (d, Claim_user_missing)
              | Some u \<Rightarrow>
                  if points u < cost r then (d, Not_enough_for_reward (cost r))
                  else
                    let new_pts = points u - cost r;
                        d1 = update_user d uid (\<lambda>x. x\<lparr>points := new_pts\<rparr>);
                        d2 = claim_reward d1 rid now
                    in (d2, Reward_claimed)))"

section \<open>The evening settlement (main.py)\<close>

definition penalty_table :: "string \<Rightarrow> int \<times> int" where
  "penalty_table ttype =
     (if ttype = ''focus'' then (20, 5)
      else if ttype = ''important'' then (10, 3)
      else if ttype = ''wish'' then (0, 2)
      else (0, 0))"

text \<open>The loop over the failed tasks, on the state
  \<open>(total_hp_loss, total_pts_loss, shield)\<close>.\<close>

fun penalty_loop :: "task list \<Rightarrow> int \<times> int \<times> bool \<Rightarrow> int \<times> int \<times> bool" where
  "penalty_loop [] acc = acc"
| "penalty_loop (t # ts) (total_hp_loss, total_pts_loss, shield) =
     (case penalty_table (task_type t) of (hp_pen, pts_pen) \<Rightarrow>
        if shield \<and> hp_pen > 0
        then penalty_loop ts (total_hp_loss + 0, total_pts_loss + pts_pen, False)
        else penalty_loop ts (total_hp_loss + hp_pen, total_pts_loss + pts_pen, shield))"

text \<open>The figures the summary message is built from.\<close>

record summary =
  sm_done :: int
  sm_total :: int
  sm_failed :: "task list"
  sm_hp_loss :: int
  sm_pts_loss :: int
  sm_new_hp :: int
  sm_new_streak :: int

definition failed_tasks :: "task list \<Rightarrow> task list" where
  "failed_tasks ts = filter (\<lambda>t. \<not> completed t \<and> \<not> penalized t) ts"

text \<open>\<^verbatim>\<open>_process_evening\<close>. The result is the store after the run and the summary sent,
  \<open>None\<close> when the function returns before it has done anything. In the branch of an
  imperfect day the source assigns \<^verbatim>\<open>new_pepper\<close> twice; the second assignment, 0,
  is the one that counts.\<close>

definition process_evening :: "db \<Rightarrow> int \<Rightarrow> date \<Rightarrow> db \<times> summary option" where
  "process_evening d uid today =
     (let ts = get_tasks_by_date d uid today in
      if ts = [] then (d, None)
      else (case get_user d uid of
         None \<Rightarrow> (d, None)
       | Some u \<Rightarrow>
          let total = int (length ts);
              ndone = int (length (filter completed ts));
              failed = failed_tasks ts
          in (case penalty_loop failed (0, 0, shield_active u) of
                (total_hp_loss, total_pts_loss, shield) \<Rightarrow>
          let new_hp = max 0 (hp u - total_hp_loss);
              new_pts = max 0 (points u - total_pts_loss);
              shield_now = (if shield_active u \<and> total_hp_loss > 0 then False
                            else shield_active u);
              (new_streak, new_pepper) =
                 (if ndone = total
                  then (let new_streak = pepper_streak u + 1
                        in (new_streak, if new_streak \<ge> 3 then True else pepper_mode u))
                  else (let new_pepper = (if \<not> pepper_mode u then False else pepper_mode u);
                            new_pepper = False
                        in (0, new_pepper)));
              d1 = update_user d uid
                     (\<lambda>r. r\<lparr>hp := new_hp, points := new_pts, shield_active := shield_now,
                             pepper_mode := new_pepper, pepper_streak := new_streak,
                             last_perfect_date :=
                               (if ndone = total then Some today else last_perfect_date u)\<rparr>);
              d2 = mark_tasks_penalized d1 uid today
          in (d2, Some \<lparr>sm_done = ndone, sm_total = total, sm_failed = failed,
                        sm_hp_loss = total_hp_loss, sm_pts_loss = total_pts_loss,
                        sm_new_hp = new_hp, sm_new_streak = new_streak\<rparr>))))"

section \<open>Concrete stores\<close>

text \<open>Small stores on which the operations are run below. Day 739926 is Friday
  2026-11-06 and day 739928 the Sunday after it. User 1 is a freshly created user with
  some fields set; tasks are rows as \<^verbatim>\<open>add_task\<close> inserts them.\<close>

definition shielded_user :: user where
  "shielded_user = (new_user_row ''ann'' [])\<lparr>shield_active := True\<rparr>"

text \<open>A shielded user with one failed focus task.\<close>

definition one_failed_db :: db where
  "one_failed_db =
     \<lparr>users = [1 \<mapsto> shielded_user],
      tasks = [new_task_row 1 1 ''report'' ''focus'' [] 739926],
      rewards = Map.empty\<rparr>"

text \<open>A shielded user with two failed focus tasks.\<close>

definition two_failed_db :: db where
  "two_failed_db =
     \<lparr>users = [1 \<mapsto> shielded_user],
      tasks = [new_task_row 1 1 ''report'' ''focus'' [] 739926,
               new_task_row 2 1 ''slides'' ''focus'' [] 739926],
      rewards = Map.empty\<rparr>"

text \<open>A user whose only task of the day is completed.\<close>

definition perfect_day_db :: db where
  "perfect_day_db =
     \<lparr>users = [1 \<mapsto> new_user_row ''ann'' []],
      tasks = [(new_task_row 1 1 ''report'' ''focus'' [] 739926)
                 \<lparr>completed := True, completed_at := ''2026-11-06T10:00:00''\<rparr>],
      rewards = Map.empty\<rparr>"

text \<open>A user at level 1 with 80 xp and one open focus task.\<close>

definition level_one_db :: db where
  "level_one_db =
     \<lparr>users = [1 \<mapsto> (new_user_row ''ann'' [])\<lparr>xp := 80\<rparr>],
      tasks = [new_task_row 1 1 ''report'' ''focus'' [] 739926],
      rewards = Map.empty\<rparr>"

text \<open>On Sunday 739928: an open task created seven days earlier, on day 739921, and a
  completed task created on the Sunday itself; 120 points and a reward that costs 100.\<close>

definition sunday_db :: db where
  "sunday_db =
     \<lparr>users = [1 \<mapsto> (new_user_row ''ann'' [])\<lparr>points := 120\<rparr>],
      tasks = [new_task_row 1 1 ''report'' ''focus'' [] 739921,
               (new_task_row 2 1 ''slides'' ''focus'' [] 739928)
                 \<lparr>completed := True, completed_at := ''2026-11-08T10:00:00''\<rparr>],
      rewards = [1 \<mapsto> \<lparr>reward_user_id = 1, reward_title = ''cinema'', cost = 100,
                          claimed = False, claimed_at = []\<rparr>]\<rparr>"

text \<open>The same user and reward on that Sunday, with the completed task only.\<close>

definition eligible_db :: db where
  "eligible_db =
     sunday_db\<lparr>tasks := [(new_task_row 2 1 ''slides'' ''focus'' [] 739928)
                 \<lparr>completed := True, completed_at := ''2026-11-08T10:00:00''\<rparr>]\<rparr>"

text \<open>The same store with 250 points for the user.\<close>

definition rich_db :: db where
  "rich_db =
     eligible_db\<lparr>users := [1 \<mapsto> (new_user_row ''ann'' [])\<lparr>points := 250\<rparr>]\<rparr>"

section \<open>Properties\<close>

subsection \<open>Auxiliary facts about the store\<close>

lemma insort_key_map_same:
  "(\<And>y. k (f y) = k y) \<Longrightarrow> insort_key k (f x) (map f ys) = map f (insort_key k x ys)"
  by (induction ys) simp_all

lemma sort_key_map_same:
  "(\<And>y. k (f y) = k y) \<Longrightarrow> sort_key k (map f xs) = map f (sort_key k xs)"
  by (induction xs) (simp_all add: insort_key_map_same)

lemma filter_map_same:
  "(\<And>y. p (f y) = p y) \<Longrightarrow> filter p (map f xs) = map f (filter p xs)"
  by (induction xs) simp_all

lemma get_tasks_by_date_update_user [simp]:
  "get_tasks_by_date (update_user d uid f) uid' day = get_tasks_by_date d uid' day"
  by (simp add: get_tasks_by_date_def update_user_def split: option.splits)

text \<open>The tasks of the day after the bulk marking are the tasks of the day before it,
  each incomplete one marked.\<close>

lemma get_tasks_by_date_mark:
  "get_tasks_by_date (mark_tasks_penalized d uid day) uid day =
     map (\<lambda>t. if \<not> completed t then t\<lparr>penalized := True\<rparr> else t)
       (get_tasks_by_date d uid day)"
proof -
  let ?m = "\<lambda>t. if task_user_id t = uid \<and> created_date t = day \<and> \<not> completed t
                 then t\<lparr>penalized := True\<rparr> else t"
  let ?m' = "\<lambda>t. if \<not> completed t then t\<lparr>penalized := True\<rparr> else t"
  let ?p = "\<lambda>t. task_user_id t = uid \<and> created_date t = day"
  have 1: "filter ?p (map ?m (tasks d)) = map ?m (filter ?p (tasks d))"
    by (rule filter_map_same) simp
  have 2: "sort_key task_id (map ?m (filter ?p (tasks d)))
             = map ?m (sort_key task_id (filter ?p (tasks d)))"
    by (rule sort_key_map_same) simp
  have 3: "map ?m (sort_key task_id (filter ?p (tasks d)))
             = map ?m' (sort_key task_id (filter ?p (tasks d)))"
    by (rule map_cong) auto
  show ?thesis
    unfolding get_tasks_by_date_def mark_tasks_penalized_def using 1 2 3 by simp
qed

lemma failed_tasks_marked:
  "failed_tasks (map (\<lambda>t. if \<not> completed t then t\<lparr>penalized := True\<rparr> else t) ts) = []"
  by (induction ts) (simp_all add: failed_tasks_def)

subsection \<open>What one settlement run writes\<close>

lemma process_evening_skip:
  "get_tasks_by_date d uid today = [] \<or> users d uid = None \<Longrightarrow>
   process_evening d uid today = (d, None)"
  by (auto simp: process_evening_def get_user_def Let_def)

lemma process_evening_user:
  assumes "get_tasks_by_date d uid today = ts" "ts \<noteq> []" "users d uid = Some u"
    "penalty_loop (failed_tasks ts) (0, 0, shield_active u) = (hl, pl, sh)"
  shows "users (fst (process_evening d uid today)) =
     (users d)(uid \<mapsto> u\<lparr>hp := max 0 (hp u - hl), points := max 0 (points u - pl),
        shield_active := (if shield_active u \<and> hl > 0 then False else shield_active u),
        pepper_mode := (if length (filter completed ts) = length ts
                        then (if pepper_streak u + 1 \<ge> 3 then True else pepper_mode u)
                        else False),
        pepper_streak := (if length (filter completed ts) = length ts
                          then pepper_streak u + 1 else 0),
        last_perfect_date := (if length (filter completed ts) = length ts
                              then Some today else last_perfect_date u)\<rparr>)"
  using assms
  by (simp add: process_evening_def get_user_def Let_def update_user_def
      mark_tasks_penalized_def)

lemma process_evening_tasks:
  assumes "get_tasks_by_date d uid today \<noteq> []" "users d uid = Some u"
  shows "tasks (fst (process_evening d uid today)) = tasks (mark_tasks_penalized d uid today)"
  using assms
  by (simp add: process_evening_def get_user_def Let_def update_user_def
      mark_tasks_penalized_def split: prod.splits)

lemma process_evening_rewards:
  "rewards (fst (process_evening d uid today)) = rewards d"
  by (simp add: process_evening_def get_user_def Let_def update_user_def
      mark_tasks_penalized_def split: prod.splits option.splits)

lemma process_evening_summary:
  assumes "get_tasks_by_date d uid today = ts" "ts \<noteq> []" "users d uid = Some u"
    "penalty_loop (failed_tasks ts) (0, 0, shield_active u) = (hl, pl, sh)"
  shows "snd (process_evening d uid today) =
     Some \<lparr>sm_done = int (length (filter completed ts)), sm_total = int (length ts),
           sm_failed = failed_tasks ts, sm_hp_loss = hl, sm_pts_loss = pl,
           sm_new_hp = max 0 (hp u - hl),
           sm_new_streak = (if length (filter completed ts) = length ts
                            then pepper_streak u + 1 else 0)\<rparr>"
  using assms
  by (simp add: process_evening_def get_user_def Let_def)

lemma get_tasks_by_date_cong:
  "tasks d = tasks d' \<Longrightarrow> get_tasks_by_date d uid day = get_tasks_by_date d' uid day"
  by (simp add: get_tasks_by_date_def)

lemma process_evening_tasks_after:
  assumes "get_tasks_by_date d uid today = ts" and "ts \<noteq> []" and "users d uid = Some u"
  shows "get_tasks_by_date (fst (process_evening d uid today)) uid today
           = map (\<lambda>t. if \<not> completed t then t\<lparr>penalized := True\<rparr> else t) ts"
proof -
  have "tasks (fst (process_evening d uid today)) = tasks (mark_tasks_penalized d uid today)"
    using assms by (simp add: process_evening_tasks)
  then have "get_tasks_by_date (fst (process_evening d uid today)) uid today
           = get_tasks_by_date (mark_tasks_penalized d uid today) uid today"
    by (rule get_tasks_by_date_cong)
  with assms(1) show ?thesis by (simp add: get_tasks_by_date_mark)
qed

subsection \<open>The level-up loop\<close>

lemma level_up_loop_inv:
  "1 \<le> l \<Longrightarrow> 0 \<le> x \<Longrightarrow> level_up_loop x l = (x', l') \<Longrightarrow>
     0 \<le> x' \<and> x' < l' * 100 \<and> l \<le> l'"
proof (induction x l rule: level_up_loop.induct)
  case (1 new_xp new_lvl)
  show ?case
  proof (cases "new_xp \<ge> new_lvl * 100")
    case True
    with "1.prems" have "level_up_loop (new_xp - new_lvl * 100) (new_lvl + 1) = (x', l')"
      by (simp add: level_up_loop.simps [of new_xp new_lvl])
    with "1.IH" [OF True] "1.prems" True
    have "0 \<le> x' \<and> x' < l' * 100 \<and> new_lvl + 1 \<le> l'"
      by simp
    then show ?thesis by simp
  next
    case False
    with "1.prems" show ?thesis
      by (simp add: level_up_loop.simps [of new_xp new_lvl])
  qed
qed

lemma calc_rewards_nonneg:
  "calc_rewards ty p = (a, b, c) \<Longrightarrow> 0 \<le> a \<and> 0 \<le> b \<and> 0 \<le> c"
  by (auto simp: calc_rewards_def reward_table_def py_int_def floor_eq_iff split: if_splits)

lemma get_task_update_user [simp]:
  "get_task (update_user d uid f) tid = get_task d tid"
  by (simp add: get_task_def update_user_def split: option.splits)

lemma get_task_complete_task:
  "get_task d tid = Some t \<Longrightarrow>
   get_task (complete_task d tid now) tid = Some (t\<lparr>completed := True, completed_at := now\<rparr>)"
proof -
  have "find (\<lambda>t. task_id t = tid) xs = Some t \<Longrightarrow>
        find (\<lambda>t. task_id t = tid)
          (map (\<lambda>t. if task_id t = tid then t\<lparr>completed := True, completed_at := now\<rparr> else t) xs)
        = Some (t\<lparr>completed := True, completed_at := now\<rparr>)" for xs
    by (induction xs) (auto split: if_splits)
  then show "get_task d tid = Some t \<Longrightarrow> ?thesis"
    by (simp add: get_task_def complete_task_def)
qed

lemma get_task_delete_task:
  "get_task (delete_task d tid) tid = None"
  by (simp add: get_task_def delete_task_def find_None_iff)

text \<open>The definitions that evaluating a settlement run on a concrete store unfolds.\<close>

lemmas eval_defs = process_evening_def get_tasks_by_date_def get_user_def update_user_def
  mark_tasks_penalized_def failed_tasks_def penalty_table_def new_task_row_def new_user_row_def
  shielded_user_def Let_def

subsection \<open>Rewards and levels\<close>

text \<open>C6: the reward function returns the fixed table focus = (50, 20, 0),
  important = (20, 10, 0), wish = (5, 2, 5); with pepper the xp and the points are
  the base values times 1.5 truncated toward zero, (75, 30), (30, 15) and (7, 3), and
  the heal is the base heal.\<close>

theorem calc_rewards_table:
  "calc_rewards ''focus'' False = (50, 20, 0) \<and>
   calc_rewards ''important'' False = (20, 10, 0) \<and>
   calc_rewards ''wish'' False = (5, 2, 5) \<and>
   calc_rewards ''focus'' True = (75, 30, 0) \<and>
   calc_rewards ''important'' True = (30, 15, 0) \<and>
   calc_rewards ''wish'' True = (7, 3, 5)"
  by (simp add: calc_rewards_def reward_table_def py_int_def floor_eq_iff)

text \<open>C7: for a user with level at least 1 and non-negative xp, the level-up loop
  started after any non-negative xp gain ends with \<open>0 \<le> xp' < level' * 100\<close> and
  \<open>level' \<ge> level\<close>; so does \<^verbatim>\<open>task_done\<close>, which stores the loop's result for the
  gain of the completed task. From level 1 and xp 80 the 50 xp of a focus task give
  level 2 and xp 30; from level 1 and xp 250 the same grant gives level 3 and xp 0,
  two level-ups at once.\<close>

theorem task_done_level_invariant:
  assumes "1 \<le> level u" and "0 \<le> xp u"
  shows "(\<forall>gain x' l'. 0 \<le> gain \<and> level_up_loop (xp u + gain) (level u) = (x', l')
            \<longrightarrow> 0 \<le> x' \<and> x' < l' * 100 \<and> level u \<le> l')
       \<and> (\<forall>d uid tid now t. users d uid = Some u \<and> get_task d tid = Some t \<and> \<not> completed t
            \<longrightarrow> (\<exists>u'. users (fst (task_done d uid tid now)) uid = Some u'
                  \<and> (xp u', level u') = level_up_loop (xp u + fst (calc_rewards (task_type t) (pepper_mode u))) (level u)
                  \<and> 0 \<le> xp u' \<and> xp u' < level u' * 100 \<and> level u \<le> level u'))
       \<and> level_up_loop (80 + fst (calc_rewards ''focus'' False)) 1 = (30, 2)
       \<and> level_up_loop (250 + fst (calc_rewards ''focus'' False)) 1 = (0, 3)"
proof -
  have A: "\<forall>gain x' l'. 0 \<le> gain \<and> level_up_loop (xp u + gain) (level u) = (x', l')
            \<longrightarrow> 0 \<le> x' \<and> x' < l' * 100 \<and> level u \<le> l'"
  proof (intro allI impI)
  fix gain x' l'
  assume "0 \<le> gain \<and> level_up_loop (xp u + gain) (level u) = (x', l')"
  with assms show "0 \<le> x' \<and> x' < l' * 100 \<and> level u \<le> l'"
    using level_up_loop_inv [of "level u" "xp u + gain" x' l'] by simp
  qed
  have B: "\<forall>d uid tid now t. users d uid = Some u \<and> get_task d tid = Some t \<and> \<not> completed t
            \<longrightarrow> (\<exists>u'. users (fst (task_done d uid tid now)) uid = Some u'
                  \<and> (xp u', level u') = level_up_loop (xp u + fst (calc_rewards (task_type t) (pepper_mode u))) (level u)
                  \<and> 0 \<le> xp u' \<and> xp u' < level u' * 100 \<and> level u \<le> level u')"
  proof (intro allI impI)
  fix d uid tid now t
  assume a: "users d uid = Some u \<and> get_task d tid = Some t \<and> \<not> completed t"
  obtain xg pg hg where r: "calc_rewards (task_type t) (pepper_mode u) = (xg, pg, hg)"
    by (cases "calc_rewards (task_type t) (pepper_mode u)") auto
  obtain x' l' where l: "level_up_loop (xp u + xg) (level u) = (x', l')"
    by (cases "level_up_loop (xp u + xg) (level u)") auto
  from r have "0 \<le> xg" using calc_rewards_nonneg by blast
  with assms l have inv: "0 \<le> x' \<and> x' < l' * 100 \<and> level u \<le> l'"
    using level_up_loop_inv [of "level u" "xp u + xg" x' l'] by simp
  from a r l have "users (fst (task_done d uid tid now)) uid
      = Some (u\<lparr>xp := x', level := l', hp := min 100 (hp u + hg), points := points u + pg\<rparr>)"
    by (simp add: task_done_def get_user_def update_user_def complete_task_def Let_def)
  with inv r l show "\<exists>u'. users (fst (task_done d uid tid now)) uid = Some u'
                  \<and> (xp u', level u') = level_up_loop (xp u + fst (calc_rewards (task_type t) (pepper_mode u))) (level u)
                  \<and> 0 \<le> xp u' \<and> xp u' < level u' * 100 \<and> level u \<le> level u'"
    by simp
  qed
  have C: "level_up_loop (80 + fst (calc_rewards ''focus'' False)) 1 = (30, 2)"
    by (simp add: calc_rewards_def reward_table_def py_int_def level_up_loop.simps)
  have D: "level_up_loop (250 + fst (calc_rewards ''focus'' False)) 1 = (0, 3)"
    by (simp add: calc_rewards_def reward_table_def py_int_def level_up_loop.simps)
  from A B C D show ?thesis by blast
qed

text \<open>The theorem at the user of level 1 with 80 xp who completes a focus task.\<close>

theorem task_done_level_invariant_witness:
  "1 \<le> level ((new_user_row ''ann'' [])\<lparr>xp := 80\<rparr>)
   \<and> 0 \<le> xp ((new_user_row ''ann'' [])\<lparr>xp := 80\<rparr>)
   \<and> (\<exists>u'. users (fst (task_done level_one_db 1 1 ''2026-11-06T10:00:00'')) 1 = Some u'
          \<and> (xp u', level u') = (30, 2)
          \<and> 0 \<le> xp u' \<and> xp u' < level u' * 100 \<and> 1 \<le> level u')"
proof -
  let ?u = "(new_user_row ''ann'' [])\<lparr>xp := 80\<rparr>"
  let ?t = "new_task_row 1 1 ''report'' ''focus'' [] 739926"
  have h1: "1 \<le> level ?u" by (simp add: new_user_row_def)
  have h2: "0 \<le> xp ?u" by simp
  have g: "users level_one_db 1 = Some ?u \<and> get_task level_one_db 1 = Some ?t \<and> \<not> completed ?t"
    by (simp add: level_one_db_def get_task_def new_task_row_def)
  from task_done_level_invariant [OF h1 h2] g
  have "\<exists>u'. users (fst (task_done level_one_db 1 1 ''2026-11-06T10:00:00'')) 1 = Some u'
          \<and> (xp u', level u') = level_up_loop (xp ?u + fst (calc_rewards (task_type ?t) (pepper_mode ?u))) (level ?u)
          \<and> 0 \<le> xp u' \<and> xp u' < level u' * 100 \<and> level ?u \<le> level u'"
    by blast
  moreover from task_done_level_invariant [OF h1 h2]
  have "level_up_loop (80 + fst (calc_rewards ''focus'' False)) 1 = (30, 2)"
    by blast
  ultimately show ?thesis
    using h1 h2 by (auto simp: new_task_row_def new_user_row_def)
qed

subsection \<open>The shop and the rewards\<close>

text \<open>C9: for an existing user and the items shield (price 50) and pepper potion
  (price 100), the purchase is refused exactly when the points are below the price, and
  then the store is unchanged; otherwise the reply is \<open>Bought\<close> and the store differs
  from the old one in this user's row only, where the points are lowered by the price
  and \<^verbatim>\<open>shield_active\<close>, respectively \<^verbatim>\<open>pepper_mode\<close>, is set, whatever the streak.\<close>

theorem shop_buy_purchase:
  assumes "users d uid = Some u" and "item = ''shield'' \<or> item = ''pepper''"
  shows "prices ''shield'' = 50 \<and> prices ''pepper'' = 100
    \<and> (snd (shop_buy d uid item) = Not_enough_points (prices item) (points u)
         \<longleftrightarrow> points u < prices item)
    \<and> (points u < prices item \<longrightarrow> fst (shop_buy d uid item) = d)
    \<and> (\<not> points u < prices item \<longrightarrow>
          snd (shop_buy d uid item) = Bought
          \<and> fst (shop_buy d uid item) =
              d\<lparr>users := (users d)(uid \<mapsto>
                   (if item = ''shield''
                    then u\<lparr>points := points u - prices item, shield_active := True\<rparr>
                    else u\<lparr>points := points u - prices item, pepper_mode := True\<rparr>))\<rparr>)"
  using assms
  by (auto simp: shop_buy_def prices_def get_user_def update_user_def Let_def)

text \<open>A user with 120 points buys the shield; a user with no points is refused the potion.\<close>

theorem shop_buy_purchase_witness:
  "users eligible_db 1 = Some ((new_user_row ''ann'' [])\<lparr>points := 120\<rparr>)
   \<and> shop_buy eligible_db 1 ''shield''
       = (eligible_db\<lparr>users := [1 \<mapsto> (new_user_row ''ann'' [])\<lparr>points := 70, shield_active := True\<rparr>]\<rparr>,
          Bought)
   \<and> users level_one_db 1 = Some ((new_user_row ''ann'' [])\<lparr>xp := 80\<rparr>)
   \<and> shop_buy level_one_db 1 ''pepper'' = (level_one_db, Not_enough_points 100 0)"
proof -
  let ?u = "(new_user_row ''ann'' [])\<lparr>points := 120\<rparr>"
  let ?v = "(new_user_row ''ann'' [])\<lparr>xp := 80\<rparr>"
  have a: "users eligible_db 1 = Some ?u"
    by (simp add: eligible_db_def sunday_db_def)
  have b: "users level_one_db 1 = Some ?v"
    by (simp add: level_one_db_def)
  have i: "''shield'' = ''shield'' \<or> ''shield'' = ''pepper''" by simp
  have j: "''pepper'' = ''shield'' \<or> ''pepper'' = ''pepper''" by simp
  have 1: "shop_buy eligible_db 1 ''shield''
       = (eligible_db\<lparr>users := [1 \<mapsto> (new_user_row ''ann'' [])\<lparr>points := 70, shield_active := True\<rparr>]\<rparr>,
          Bought)"
    using shop_buy_purchase [OF a i]
    by (simp add: prod_eq_iff prices_def new_user_row_def eligible_db_def sunday_db_def)
  have 2: "shop_buy level_one_db 1 ''pepper'' = (level_one_db, Not_enough_points 100 0)"
    using shop_buy_purchase [OF b j]
    by (simp add: prod_eq_iff prices_def new_user_row_def)
  from a b 1 2 show ?thesis by simp
qed

text \<open>C8: the eligibility shown by \<^verbatim>\<open>show_rewards\<close> holds if and only if the day is a
  Sunday and the rate is strictly above 80; it fails on any other day whatever the
  rate, and on a Sunday with a rate of 80 or less. \<^verbatim>\<open>reward_claim\<close>, for an existing
  reward and user, refuses with "conditions not met" unless the same condition holds
  for the rate it reads, then refuses when the points are below the cost, and only
  then debits the cost and marks the reward claimed.\<close>

theorem claim_gating:
  "(can_claim today rate \<longleftrightarrow> weekday today = 6 \<and> 80 < rate)
   \<and> (weekday today \<noteq> 6 \<longrightarrow> \<not> can_claim today rate)
   \<and> (rate \<le> 80 \<longrightarrow> \<not> can_claim today rate)
   \<and> show_rewards d uid today = can_claim today (get_week_completion_rate d uid today)
   \<and> (rewards d rid = Some r \<and> users d uid = Some u \<longrightarrow>
        reward_claim d uid rid today now =
          (if \<not> can_claim today (get_week_completion_rate d uid today)
           then (d, Conditions_not_met)
           else if points u < cost r then (d, Not_enough_for_reward (cost r))
           else (d\<lparr>users := (users d)(uid \<mapsto> u\<lparr>points := points u - cost r\<rparr>),
                   rewards := (rewards d)(rid \<mapsto> r\<lparr>claimed := True, claimed_at := now\<rparr>)\<rparr>,
                 Reward_claimed)))"
  by (auto simp: can_claim_def show_rewards_def reward_claim_def get_reward_def get_user_def
      update_user_def claim_reward_def Let_def)

text \<open>Day 739928 is a Sunday: with a rate of 100 the reward is claimed and 100 of the 120
  points are debited; on the Friday before, the claim is refused.\<close>

theorem claim_gating_witness:
  "weekday 739928 = 6
   \<and> can_claim 739928 100 \<and> \<not> can_claim 739926 100 \<and> \<not> can_claim 739928 80
   \<and> rewards eligible_db 1
       = Some \<lparr>reward_user_id = 1, reward_title = ''cinema'', cost = 100, claimed = False,
               claimed_at = []\<rparr>
   \<and> users eligible_db 1 = Some ((new_user_row ''ann'' [])\<lparr>points := 120\<rparr>)
   \<and> reward_claim eligible_db 1 1 739928 ''2026-11-08T12:00:00''
       = (eligible_db
            \<lparr>users := [1 \<mapsto> (new_user_row ''ann'' [])\<lparr>points := 20\<rparr>],
             rewards := [1 \<mapsto> \<lparr>reward_user_id = 1, reward_title = ''cinema'', cost = 100,
                                 claimed = True, claimed_at = ''2026-11-08T12:00:00''\<rparr>]\<rparr>,
          Reward_claimed)
   \<and> reward_claim eligible_db 1 1 739926 ''2026-11-06T12:00:00''
       = (eligible_db, Conditions_not_met)"
proof -
  let ?r = "\<lparr>reward_user_id = 1, reward_title = ''cinema'', cost = 100, claimed = False,
               claimed_at = []\<rparr>"
  let ?u = "(new_user_row ''ann'' [])\<lparr>points := 120\<rparr>"
  have w: "weekday 739928 = 6" "weekday 739926 \<noteq> 6" by (simp_all add: weekday_def)
  have r: "rewards eligible_db 1 = Some ?r" and u: "users eligible_db 1 = Some ?u"
    by (simp_all add: eligible_db_def sunday_db_def)
  have q: "get_week_completion_rate eligible_db 1 739928 = 100"
    by (simp add: get_week_completion_rate_def eligible_db_def sunday_db_def new_task_row_def)
  have 1: "can_claim 739928 100"
    using claim_gating [where today = 739928 and rate = 100] w by simp
  have 2: "\<not> can_claim 739926 100"
    using claim_gating [where today = 739926 and rate = 100] w by simp
  have 3: "\<not> can_claim 739928 80"
    using claim_gating [where today = 739928 and rate = 80] by simp
  have 4: "reward_claim eligible_db 1 1 739928 ''2026-11-08T12:00:00''
       = (eligible_db
            \<lparr>users := [1 \<mapsto> (new_user_row ''ann'' [])\<lparr>points := 20\<rparr>],
             rewards := [1 \<mapsto> \<lparr>reward_user_id = 1, reward_title = ''cinema'', cost = 100,
                                 claimed = True, claimed_at = ''2026-11-08T12:00:00''\<rparr>]\<rparr>,
          Reward_claimed)"
    using claim_gating [where today = 739928 and d = eligible_db and uid = 1 and rid = 1
        and r = ?r and u = ?u and now = "''2026-11-08T12:00:00''" and rate = 100] r u q 1
    by (simp add: new_user_row_def eligible_db_def sunday_db_def)
  have 5: "reward_claim eligible_db 1 1 739926 ''2026-11-06T12:00:00''
       = (eligible_db, Conditions_not_met)"
    using claim_gating [where today = 739926 and d = eligible_db and uid = 1 and rid = 1
        and r = ?r and u = ?u and now = "''2026-11-06T12:00:00''"
        and rate = "get_week_completion_rate eligible_db 1 739926"] r u w
    by simp
  from w r u 1 2 3 4 5 show ?thesis by simp
qed

subsection \<open>The weekly completion rate\<close>

text \<open>C3: the claim is that the rate is taken over exactly the tasks created in the
  trailing seven days that include today. \<^verbatim>\<open>get_week_completion_rate\<close> counts the
  tasks from \<open>today - 7\<close> to \<open>today\<close>, eight days: on Sunday 739928, with an open
  task created on day 739921 and a completed task created on the Sunday, it returns
  50, where the rate over the seven days 739922 to 739928 is 100.\<close>

theorem week_rate_counts_eight_days:
  "get_week_completion_rate sunday_db 1 739928 = 50
   \<and> weekly_completion_rate_spec sunday_db 1 739928 = 100"
  by (simp add: get_week_completion_rate_def weekly_completion_rate_spec_def sunday_db_def
      new_task_row_def Let_def)

subsection \<open>The evening settlement\<close>

text \<open>What the penalty loop computes. Without a shield every penalty is summed; with
  a shield the HP penalty of the first task that has a positive one is left out, all
  later ones are summed in full, and the loop's shield variable ends false.\<close>

lemma penalty_loop_unshielded:
  "penalty_loop ts (h, p, False)
     = (h + (\<Sum>t\<leftarrow>ts. fst (penalty_table (task_type t))),
        p + (\<Sum>t\<leftarrow>ts. snd (penalty_table (task_type t))), False)"
  by (induction ts arbitrary: h p) (auto split: prod.splits)

lemma penalty_loop_shielded:
  "penalty_loop ts (h, p, True)
     = (case find (\<lambda>t. 0 < fst (penalty_table (task_type t))) ts of
          None \<Rightarrow> (h, p + (\<Sum>t\<leftarrow>ts. snd (penalty_table (task_type t))), True)
        | Some t1 \<Rightarrow>
            (h + (\<Sum>t\<leftarrow>ts. fst (penalty_table (task_type t)))
               - fst (penalty_table (task_type t1)),
             p + (\<Sum>t\<leftarrow>ts. snd (penalty_table (task_type t))), False))"
proof (induction ts arbitrary: h p)
  case Nil
  show ?case by simp
next
  case (Cons t ts)
  show ?case
  proof (cases "0 < fst (penalty_table (task_type t))")
    case True
    then show ?thesis
      by (auto simp: penalty_loop_unshielded split: prod.splits)
  next
    case False
    moreover have "0 \<le> fst (penalty_table (task_type t))"
      by (simp add: penalty_table_def)
    ultimately have z: "fst (penalty_table (task_type t)) = 0" by simp
    with False show ?thesis
      by (auto simp: Cons.IH split: prod.splits option.splits)
  qed
qed

text \<open>The example of the specification: a shielded user with 100 hp and two failed
  focus tasks ends with 80 hp and no shield.\<close>

lemma settlement_two_failed_focus:
  "map_option hp (users (fst (process_evening two_failed_db 1 739926)) 1) = Some 80
   \<and> map_option shield_active (users (fst (process_evening two_failed_db 1 739926)) 1)
        = Some False"
  by (simp add: two_failed_db_def eval_defs)

text \<open>C1: the claim is that the stored shield flag becomes false whenever the shield
  nullified an HP penalty during the run. For a shielded user with 100 hp whose only
  failed task is a focus task (HP penalty 20), the run nullifies the penalty, the HP
  loss of the run is 0 and the hp stays 100, and the flag written back is still true:
  the source clears it only when the summed HP loss is positive.\<close>

theorem shield_survives_single_nullified_penalty:
  "users one_failed_db 1 = Some shielded_user
   \<and> shield_active shielded_user \<and> hp shielded_user = 100
   \<and> map_option sm_failed (snd (process_evening one_failed_db 1 739926))
        = Some [new_task_row 1 1 ''report'' ''focus'' [] 739926]
   \<and> penalty_table ''focus'' = (20, 5)
   \<and> penalty_loop [new_task_row 1 1 ''report'' ''focus'' [] 739926] (0, 0, True)
        = (0, 5, False)
   \<and> map_option sm_hp_loss (snd (process_evening one_failed_db 1 739926)) = Some 0
   \<and> map_option hp (users (fst (process_evening one_failed_db 1 739926)) 1) = Some 100
   \<and> map_option shield_active (users (fst (process_evening one_failed_db 1 739926)) 1)
        = Some True"
  by (simp add: one_failed_db_def eval_defs)

text \<open>C4: when the user exists, after a settlement run every task of that user and
  date that is not completed is penalized, so a second run for the same date finds no
  failed task; if there are tasks that day its summary has no failed task, HP loss 0
  and points loss 0, and in every case hp and points after the second run are those
  after the first.\<close>

theorem second_settlement_no_penalty:
  assumes "users d uid = Some u"
  shows "let d1 = fst (process_evening d uid today); r2 = process_evening d1 uid today in
     (\<forall>t \<in> set (get_tasks_by_date d1 uid today). \<not> completed t \<longrightarrow> penalized t)
   \<and> failed_tasks (get_tasks_by_date d1 uid today) = []
   \<and> (get_tasks_by_date d uid today \<noteq> [] \<longrightarrow>
        (\<exists>sm. snd r2 = Some sm \<and> sm_failed sm = [] \<and> sm_hp_loss sm = 0 \<and> sm_pts_loss sm = 0))
   \<and> (\<exists>u1 u2. users d1 uid = Some u1 \<and> users (fst r2) uid = Some u2
              \<and> hp u2 = hp u1 \<and> points u2 = points u1)"
proof (cases "get_tasks_by_date d uid today = []")
  case True
  then have "process_evening d uid today = (d, None)"
    by (simp add: process_evening_skip)
  with True assms show ?thesis
    by (simp add: failed_tasks_def)
next
  case False
  define ts where "ts = get_tasks_by_date d uid today"
  define d1 where "d1 = fst (process_evening d uid today)"
  let ?m = "\<lambda>t. if \<not> completed t then t\<lparr>penalized := True\<rparr> else t"
  have ts: "get_tasks_by_date d uid today = ts" "ts \<noteq> []"
    using False by (simp_all add: ts_def)
  obtain hl pl sh where
    p: "penalty_loop (failed_tasks ts) (0, 0, shield_active u) = (hl, pl, sh)"
    by (cases "penalty_loop (failed_tasks ts) (0, 0, shield_active u)") auto
  have ts1: "get_tasks_by_date d1 uid today = map ?m ts"
    unfolding d1_def using ts assms by (rule process_evening_tasks_after)
  have ne1: "map ?m ts \<noteq> []" using ts by simp
  obtain u1 where u1: "users d1 uid = Some u1" and hp1: "hp u1 = max 0 (hp u - hl)"
    and pt1: "points u1 = max 0 (points u - pl)"
    unfolding d1_def by (simp add: process_evening_user [OF ts assms p])
  have p1: "penalty_loop (failed_tasks (map ?m ts)) (0, 0, shield_active u1) = (0, 0, shield_active u1)"
    by (simp add: failed_tasks_marked)
  have a: "\<forall>t \<in> set (get_tasks_by_date d1 uid today). \<not> completed t \<longrightarrow> penalized t"
    by (auto simp: ts1)
  have b: "failed_tasks (get_tasks_by_date d1 uid today) = []"
    by (simp add: ts1 failed_tasks_marked)
  have c: "\<exists>sm. snd (process_evening d1 uid today) = Some sm \<and> sm_failed sm = []
             \<and> sm_hp_loss sm = 0 \<and> sm_pts_loss sm = 0"
    by (simp add: process_evening_summary [OF ts1 ne1 u1 p1] failed_tasks_marked)
  have e: "\<exists>u2. users (fst (process_evening d1 uid today)) uid = Some u2
              \<and> hp u2 = hp u1 \<and> points u2 = points u1"
    by (simp add: process_evening_user [OF ts1 ne1 u1 p1] hp1 pt1)
  from a b c e u1 show ?thesis
    unfolding Let_def d1_def [symmetric] by blast
qed

text \<open>The shielded user with two failed focus tasks: 80 hp after the first run and
  after the second.\<close>

theorem second_settlement_no_penalty_witness:
  "users two_failed_db 1 = Some shielded_user
   \<and> failed_tasks (get_tasks_by_date (fst (process_evening two_failed_db 1 739926)) 1 739926) = []
   \<and> (\<exists>sm. snd (process_evening (fst (process_evening two_failed_db 1 739926)) 1 739926) = Some sm
          \<and> sm_failed sm = [] \<and> sm_hp_loss sm = 0 \<and> sm_pts_loss sm = 0)
   \<and> (\<exists>u1 u2. users (fst (process_evening two_failed_db 1 739926)) 1 = Some u1
          \<and> users (fst (process_evening (fst (process_evening two_failed_db 1 739926)) 1 739926)) 1
              = Some u2
          \<and> hp u1 = 80 \<and> hp u2 = 80 \<and> points u2 = points u1)"
proof -
  have u: "users two_failed_db 1 = Some shielded_user"
    by (simp add: two_failed_db_def)
  have ne: "get_tasks_by_date two_failed_db 1 739926 \<noteq> []"
    by (simp add: get_tasks_by_date_def two_failed_db_def new_task_row_def)
  have h: "map_option hp (users (fst (process_evening two_failed_db 1 739926)) 1) = Some 80"
    by (simp add: two_failed_db_def eval_defs)
  from second_settlement_no_penalty [OF u, of 739926] ne h u show ?thesis
    by (auto simp: Let_def)
qed

text \<open>C5: in a settlement run for an existing user with at least one task that day,
  if every task is completed (\<open>done = total\<close>) the streak grows by 1 and pepper mode
  is true if the new streak is at least 3 and keeps its value otherwise; if
  \<open>done < total\<close> the streak is 0 and pepper mode is false, whatever it was.\<close>

theorem process_evening_streak:
  assumes "get_tasks_by_date d uid today = ts" and "ts \<noteq> []" and "users d uid = Some u"
  shows "\<exists>u'. users (fst (process_evening d uid today)) uid = Some u'
     \<and> (length (filter completed ts) = length ts \<longrightarrow>
          pepper_streak u' = pepper_streak u + 1
          \<and> pepper_mode u' = (if pepper_streak u + 1 \<ge> 3 then True else pepper_mode u))
     \<and> (length (filter completed ts) < length ts \<longrightarrow>
          pepper_streak u' = 0 \<and> pepper_mode u' = False)"
proof -
  obtain hl pl sh where
    p: "penalty_loop (failed_tasks ts) (0, 0, shield_active u) = (hl, pl, sh)"
    by (cases "penalty_loop (failed_tasks ts) (0, 0, shield_active u)") auto
  show ?thesis
    by (simp add: process_evening_user [OF assms p])
qed

text \<open>A perfect day for a new user gives streak 1; a day with two failed tasks gives
  streak 0 and no pepper mode.\<close>

theorem process_evening_streak_witness:
  "get_tasks_by_date perfect_day_db 1 739926
     = [(new_task_row 1 1 ''report'' ''focus'' [] 739926)
          \<lparr>completed := True, completed_at := ''2026-11-06T10:00:00''\<rparr>]
   \<and> users perfect_day_db 1 = Some (new_user_row ''ann'' [])
   \<and> (\<exists>u'. users (fst (process_evening perfect_day_db 1 739926)) 1 = Some u'
          \<and> pepper_streak u' = 1 \<and> pepper_mode u' = False)
   \<and> (\<exists>u'. users (fst (process_evening two_failed_db 1 739926)) 1 = Some u'
          \<and> pepper_streak u' = 0 \<and> pepper_mode u' = False)"
proof -
  let ?t = "(new_task_row 1 1 ''report'' ''focus'' [] 739926)
          \<lparr>completed := True, completed_at := ''2026-11-06T10:00:00''\<rparr>"
  have a: "get_tasks_by_date perfect_day_db 1 739926 = [?t]"
    by (simp add: get_tasks_by_date_def perfect_day_db_def new_task_row_def)
  have b: "[?t] \<noteq> []" by simp
  have c: "users perfect_day_db 1 = Some (new_user_row ''ann'' [])"
    by (simp add: perfect_day_db_def)
  have a2: "get_tasks_by_date two_failed_db 1 739926
     = [new_task_row 1 1 ''report'' ''focus'' [] 739926, new_task_row 2 1 ''slides'' ''focus'' [] 739926]"
    by (simp add: get_tasks_by_date_def two_failed_db_def new_task_row_def)
  have b2: "[new_task_row 1 1 ''report'' ''focus'' [] 739926, new_task_row 2 1 ''slides'' ''focus'' [] 739926] \<noteq> []"
    by simp
  have c2: "users two_failed_db 1 = Some shielded_user"
    by (simp add: two_failed_db_def)
  from process_evening_streak [OF a b c]
  have 1: "\<exists>u'. users (fst (process_evening perfect_day_db 1 739926)) 1 = Some u'
          \<and> pepper_streak u' = 1 \<and> pepper_mode u' = False"
    by (simp add: new_task_row_def new_user_row_def)
  from process_evening_streak [OF a2 b2 c2]
  have 2: "\<exists>u'. users (fst (process_evening two_failed_db 1 739926)) 1 = Some u'
          \<and> pepper_streak u' = 0 \<and> pepper_mode u' = False"
    by (simp add: new_task_row_def)
  from a c 1 2 show ?thesis by blast
qed

text \<open>C10: a settlement run changes no user's \<^verbatim>\<open>level\<close>, \<^verbatim>\<open>xp\<close>, \<^verbatim>\<open>username\<close> or
  \<^verbatim>\<open>created_at\<close>: the update writes hp, points, shield_active, pepper_mode,
  pepper_streak and last_perfect_date only.\<close>

theorem process_evening_keeps_level_xp:
  "map_option level (users (fst (process_evening d uid today)) uid')
     = map_option level (users d uid')
   \<and> map_option xp (users (fst (process_evening d uid today)) uid')
     = map_option xp (users d uid')
   \<and> map_option username (users (fst (process_evening d uid today)) uid')
     = map_option username (users d uid')
   \<and> map_option created_at (users (fst (process_evening d uid today)) uid')
     = map_option created_at (users d uid')"
proof (cases "get_tasks_by_date d uid today = [] \<or> users d uid = None")
  case True
  then show ?thesis by (simp add: process_evening_skip)
next
  case False
  then obtain u where u: "users d uid = Some u" and ts: "get_tasks_by_date d uid today \<noteq> []"
    by auto
  obtain hl pl sh where
    p: "penalty_loop (failed_tasks (get_tasks_by_date d uid today)) (0, 0, shield_active u) = (hl, pl, sh)"
    by (cases "penalty_loop (failed_tasks (get_tasks_by_date d uid today)) (0, 0, shield_active u)") auto
  show ?thesis
    using u by (simp add: process_evening_user [OF refl ts u p])
qed

subsection \<open>Repeated invocation\<close>

lemma task_done_again:
  "snd (task_done d uid tid now) = Task_completed a b c l \<Longrightarrow>
   \<exists>t. get_task (fst (task_done d uid tid now)) tid = Some t \<and> completed t"
  by (auto simp: task_done_def Let_def get_task_complete_task
      split: option.splits if_splits prod.splits)

lemma task_done_twice:
  "fst (task_done (fst (task_done d uid tid now)) uid tid now') = fst (task_done d uid tid now)"
proof (cases "snd (task_done d uid tid now)")
  case Already_done_or_missing
  then have 1: "fst (task_done d uid tid now) = d"
    by (auto simp: task_done_def Let_def split: option.splits if_splits prod.splits)
  from Already_done_or_missing have "get_task d tid = None \<or> (\<exists>t. get_task d tid = Some t \<and> completed t)"
    by (auto simp: task_done_def Let_def split: option.splits if_splits prod.splits)
  then have "fst (task_done d uid tid now') = d"
    by (auto simp: task_done_def)
  with 1 show ?thesis by simp
next
  case (Task_completed a b c l)
  then obtain t where "get_task (fst (task_done d uid tid now)) tid = Some t \<and> completed t"
    using task_done_again by blast
  then show ?thesis by (simp add: task_done_def)
next
  case Done_user_missing
  then have 1: "fst (task_done d uid tid now) = d" and 2: "users d uid = None"
    by (auto simp: task_done_def Let_def get_user_def split: option.splits if_splits prod.splits)
  from 2 have "fst (task_done d uid tid now') = d"
    by (auto simp: task_done_def get_user_def split: option.splits)
  with 1 show ?thesis by simp
qed

lemma mark_twice:
  "map (\<lambda>t. if task_user_id t = uid \<and> created_date t = day \<and> \<not> completed t
             then t\<lparr>penalized := True\<rparr> else t)
     (map (\<lambda>t. if task_user_id t = uid \<and> created_date t = day \<and> \<not> completed t
             then t\<lparr>penalized := True\<rparr> else t) xs)
   = map (\<lambda>t. if task_user_id t = uid \<and> created_date t = day \<and> \<not> completed t
             then t\<lparr>penalized := True\<rparr> else t) xs"
  by (induction xs) simp_all

lemma process_evening_twice:
  fixes d :: db and uid :: int and today :: date
  defines "d1 \<equiv> fst (process_evening d uid today)"
  defines "d2 \<equiv> fst (process_evening d1 uid today)"
  defines "ts \<equiv> get_tasks_by_date d uid today"
  shows "tasks d2 = tasks d1 \<and> rewards d2 = rewards d1
    \<and> map_option (\<lambda>u. (username u, level u, xp u, hp u, points u, shield_active u,
                          last_perfect_date u, created_at u)) (users d2 uid')
       = map_option (\<lambda>u. (username u, level u, xp u, hp u, points u, shield_active u,
                          last_perfect_date u, created_at u)) (users d1 uid')
    \<and> (ts = [] \<or> users d uid = None \<or> length (filter completed ts) < length ts \<longrightarrow> d2 = d1)"
proof (cases "ts = [] \<or> users d uid = None")
  case True
  then have "process_evening d uid today = (d, None)"
    unfolding ts_def by (rule process_evening_skip)
  then have "d1 = d" by (simp add: d1_def)
  with True have "d2 = d1"
    by (simp add: d2_def ts_def process_evening_skip)
  then show ?thesis by simp
next
  case False
  let ?m = "\<lambda>t. if \<not> completed t then t\<lparr>penalized := True\<rparr> else t"
  from False obtain u where u: "users d uid = Some u" and ne: "ts \<noteq> []" by auto
  have ts: "get_tasks_by_date d uid today = ts" by (simp add: ts_def)
  obtain hl pl sh where
    p: "penalty_loop (failed_tasks ts) (0, 0, shield_active u) = (hl, pl, sh)"
    by (cases "penalty_loop (failed_tasks ts) (0, 0, shield_active u)") auto
  have ts1: "get_tasks_by_date d1 uid today = map ?m ts"
    unfolding d1_def using ts ne u by (rule process_evening_tasks_after)
  have ne1: "map ?m ts \<noteq> []" using ne by simp
  note U1 = process_evening_user [OF ts ne u p, folded d1_def]
  obtain u1 where u1: "users d1 uid = Some u1" by (simp add: U1)
  have p1: "penalty_loop (failed_tasks (map ?m ts)) (0, 0, shield_active u1) = (0, 0, shield_active u1)"
    by (simp add: failed_tasks_marked)
  note U2 = process_evening_user [OF ts1 ne1 u1 p1, folded d2_def]
  have fc: "completed \<circ> ?m = completed" by (auto simp: fun_eq_iff)
  have hp1: "0 \<le> hp u1" and pt1: "0 \<le> points u1"
    using u1 by (auto simp: U1)
  have lp1: "last_perfect_date u1 = Some today" if "length (filter completed ts) = length ts"
    using u1 that by (auto simp: U1)
  have t1: "tasks d1 = tasks (mark_tasks_penalized d uid today)"
    unfolding d1_def using ts ne u by (simp add: process_evening_tasks)
  have "tasks d2 = tasks (mark_tasks_penalized d1 uid today)"
    unfolding d2_def using ts1 ne1 u1 by (simp add: process_evening_tasks)
  with t1 have T: "tasks d2 = tasks d1"
    by (simp add: mark_tasks_penalized_def mark_twice)
  have R: "rewards d2 = rewards d1"
    by (simp add: d2_def process_evening_rewards)
  have F: "map_option (\<lambda>u. (username u, level u, xp u, hp u, points u, shield_active u,
                          last_perfect_date u, created_at u)) (users d2 uid')
       = map_option (\<lambda>u. (username u, level u, xp u, hp u, points u, shield_active u,
                          last_perfect_date u, created_at u)) (users d1 uid')"
  proof (cases "uid' = uid")
    case True
    with u1 hp1 pt1 lp1 show ?thesis by (simp add: U2 fc)
  next
    case False
    then show ?thesis by (simp add: U2)
  qed
  have I: "d2 = d1" if "length (filter completed ts) < length ts"
  proof -
    from that have nf: "length (filter completed ts) \<noteq> length ts" by simp
    have s1: "pepper_streak u1 = 0" and m1: "pepper_mode u1 = False"
      using u1 nf by (auto simp: U1)
    have e: "u1\<lparr>pepper_mode := False, pepper_streak := 0\<rparr> = u1"
      using s1 m1 by (intro user.equality) simp_all
    have "users d2 = (users d1)(uid \<mapsto> u1)"
      using nf hp1 pt1 by (simp add: U2 fc e)
    with u1 have "users d2 = users d1" by (simp add: fun_upd_idem)
    with T R show ?thesis by simp
  qed
  from T R F I u ne show ?thesis by simp
qed

text \<open>What a repeated invocation does leave alone. \<^verbatim>\<open>task_done\<close> on a task that is
  completed or missing changes nothing and grants nothing, and a second \<^verbatim>\<open>task_done\<close>
  for the same task leaves the store as the first one left it; a reminder for a
  completed, missing or deleted task sends nothing. A second settlement run for the
  same user and date leaves the tasks, the rewards and every user's username, level,
  xp, hp, points, shield_active, last_perfect_date and created_at as after the first
  run, and the whole store when the user has no task that day, does not exist, or has
  a task that is not completed.\<close>

lemma repeated_invocation:
  "((get_task d tid = None \<or> (\<exists>t. get_task d tid = Some t \<and> completed t)) \<longrightarrow>
       task_done d uid tid now = (d, Already_done_or_missing)
       \<and> send_reminder d uid tid = None)
   \<and> fst (task_done (fst (task_done d uid tid now)) uid tid now')
       = fst (task_done d uid tid now)
   \<and> send_reminder (delete_task d tid) uid tid = None
   \<and> (let d1 = fst (process_evening d uid today);
           d2 = fst (process_evening d1 uid today);
           ts = get_tasks_by_date d uid today
       in tasks d2 = tasks d1 \<and> rewards d2 = rewards d1
          \<and> map_option (\<lambda>u. (username u, level u, xp u, hp u, points u, shield_active u,
                               last_perfect_date u, created_at u)) (users d2 uid')
            = map_option (\<lambda>u. (username u, level u, xp u, hp u, points u, shield_active u,
                               last_perfect_date u, created_at u)) (users d1 uid')
          \<and> (ts = [] \<or> users d uid = None \<or> length (filter completed ts) < length ts
               \<longrightarrow> d2 = d1))"
proof -
  have A: "(get_task d tid = None \<or> (\<exists>t. get_task d tid = Some t \<and> completed t)) \<longrightarrow>
       task_done d uid tid now = (d, Already_done_or_missing)
       \<and> send_reminder d uid tid = None"
    by (auto simp: task_done_def send_reminder_def)
  have B: "send_reminder (delete_task d tid) uid tid = None"
    by (simp add: send_reminder_def get_task_delete_task)
  from A B task_done_twice [of d uid tid now now'] process_evening_twice [of d uid today uid']
  show ?thesis unfolding Let_def by blast
qed

text \<open>The lemma at a completed task that is completed again and reminded of, and at the
  day with two failed tasks settled twice.\<close>

lemma repeated_invocation_example:
  "(\<exists>t. get_task perfect_day_db 1 = Some t \<and> completed t)
   \<and> task_done perfect_day_db 1 1 ''2026-11-06T11:00:00''
       = (perfect_day_db, Already_done_or_missing)
   \<and> send_reminder perfect_day_db 1 1 = None
   \<and> length (filter completed (get_tasks_by_date two_failed_db 1 739926))
       < length (get_tasks_by_date two_failed_db 1 739926)
   \<and> fst (process_evening (fst (process_evening two_failed_db 1 739926)) 1 739926)
       = fst (process_evening two_failed_db 1 739926)"
proof -
  have a: "\<exists>t. get_task perfect_day_db 1 = Some t \<and> completed t"
    by (simp add: get_task_def perfect_day_db_def new_task_row_def)
  have b: "length (filter completed (get_tasks_by_date two_failed_db 1 739926))
       < length (get_tasks_by_date two_failed_db 1 739926)"
    by (simp add: get_tasks_by_date_def two_failed_db_def new_task_row_def)
  from repeated_invocation [of perfect_day_db 1 1 "''2026-11-06T11:00:00''"] a
  have 1: "task_done perfect_day_db 1 1 ''2026-11-06T11:00:00''
       = (perfect_day_db, Already_done_or_missing)
    \<and> send_reminder perfect_day_db 1 1 = None"
    by blast
  from repeated_invocation [of two_failed_db 1 1 "[]" "[]" 739926 1] b
  have 2: "fst (process_evening (fst (process_evening two_failed_db 1 739926)) 1 739926)
       = fst (process_evening two_failed_db 1 739926)"
    unfolding Let_def by blast
  from a b 1 2 show ?thesis by blast
qed

text \<open>The definitions that evaluating a reward claim on a concrete store unfolds.\<close>

lemmas claim_defs = reward_claim_def get_reward_def get_user_def update_user_def
  claim_reward_def get_week_completion_rate_def weekday_def rich_db_def eligible_db_def
  sunday_db_def new_task_row_def new_user_row_def Let_def

text \<open>C2: the claim is that every core operation is idempotent under repeated
  invocation because the terminal flags \<^verbatim>\<open>completed\<close>, \<^verbatim>\<open>penalized\<close> and
  \<^verbatim>\<open>claimed\<close> are checked again before acting, and that a second settlement run for
  the same user and date leaves all stored user fields as the first run left them. Two
  operations are not. \<^verbatim>\<open>_process_evening\<close> guards the penalties with \<^verbatim>\<open>penalized\<close>
  but not the streak: on a day whose only task is completed the first run stores
  streak 1, the second run for the same day streak 2, and a third streak 3 with pepper
  mode switched on. \<^verbatim>\<open>reward_claim\<close> never reads \<^verbatim>\<open>claimed\<close>: on a Sunday with a
  rate of 100, a user with 250 points claims a reward that costs 100 and has 150
  points and a claimed reward; claiming the same reward again is accepted and leaves
  50 points.\<close>

theorem repeated_invocation_not_idempotent:
  "map_option pepper_streak (users (fst (process_evening perfect_day_db 1 739926)) 1) = Some 1
   \<and> map_option pepper_streak
        (users (fst (process_evening (fst (process_evening perfect_day_db 1 739926)) 1 739926)) 1)
       = Some 2
   \<and> map_option (\<lambda>u. (pepper_streak u, pepper_mode u))
        (users (fst (process_evening (fst (process_evening
           (fst (process_evening perfect_day_db 1 739926)) 1 739926)) 1 739926)) 1)
       = Some (3, True)
   \<and> map_option points (users rich_db 1) = Some 250
   \<and> map_option cost (rewards rich_db 1) = Some 100
   \<and> snd (reward_claim rich_db 1 1 739928 ''2026-11-08T12:00:00'') = Reward_claimed
   \<and> map_option points
        (users (fst (reward_claim rich_db 1 1 739928 ''2026-11-08T12:00:00'')) 1) = Some 150
   \<and> map_option claimed
        (rewards (fst (reward_claim rich_db 1 1 739928 ''2026-11-08T12:00:00'')) 1) = Some True
   \<and> snd (reward_claim (fst (reward_claim rich_db 1 1 739928 ''2026-11-08T12:00:00''))
              1 1 739928 ''2026-11-08T12:05:00'') = Reward_claimed
   \<and> map_option points
        (users (fst (reward_claim (fst (reward_claim rich_db 1 1 739928 ''2026-11-08T12:00:00''))
              1 1 739928 ''2026-11-08T12:05:00'')) 1) = Some 50"
proof -
  have s: "map_option pepper_streak (users (fst (process_evening perfect_day_db 1 739926)) 1) = Some 1
   \<and> map_option pepper_streak
        (users (fst (process_evening (fst (process_evening perfect_day_db 1 739926)) 1 739926)) 1)
       = Some 2
   \<and> map_option (\<lambda>u. (pepper_streak u, pepper_mode u))
        (users (fst (process_evening (fst (process_evening
           (fst (process_evening perfect_day_db 1 739926)) 1 739926)) 1 739926)) 1)
       = Some (3, True)"
    by (simp add: perfect_day_db_def eval_defs)
  have c: "map_option points (users rich_db 1) = Some 250
   \<and> map_option cost (rewards rich_db 1) = Some 100
   \<and> snd (reward_claim rich_db 1 1 739928 ''2026-11-08T12:00:00'') = Reward_claimed
   \<and> map_option points
        (users (fst (reward_claim rich_db 1 1 739928 ''2026-11-08T12:00:00'')) 1) = Some 150
   \<and> map_option claimed
        (rewards (fst (reward_claim rich_db 1 1 739928 ''2026-11-08T12:00:00'')) 1) = Some True
   \<and> snd (reward_claim (fst (reward_claim rich_db 1 1 739928 ''2026-11-08T12:00:00''))
              1 1 739928 ''2026-11-08T12:05:00'') = Reward_claimed
   \<and> map_option points
        (users (fst (reward_claim (fst (reward_claim rich_db 1 1 739928 ''2026-11-08T12:00:00''))
              1 1 739928 ''2026-11-08T12:05:00'')) 1) = Some 50"
    by (simp add: claim_defs)
  from s c show ?thesis by simp
qed

text \<open>The gate of \<^verbatim>\<open>reward_claim\<close> is open at both calls: day 739928 is a Sunday and
  the rate read is 100, before and after the first claim; the second claim is
  accepted and leaves 50 points.\<close>

theorem repeated_invocation_not_idempotent_witness:
  "weekday 739928 = 6
   \<and> get_week_completion_rate rich_db 1 739928 = 100
   \<and> get_week_completion_rate
        (fst (reward_claim rich_db 1 1 739928 ''2026-11-08T12:00:00'')) 1 739928 = 100
   \<and> snd (reward_claim (fst (reward_claim rich_db 1 1 739928 ''2026-11-08T12:00:00''))
              1 1 739928 ''2026-11-08T12:05:00'') = Reward_claimed
   \<and> map_option points
        (users (fst (reward_claim (fst (reward_claim rich_db 1 1 739928 ''2026-11-08T12:00:00''))
              1 1 739928 ''2026-11-08T12:05:00'')) 1) = Some 50"
proof -
  have w: "weekday 739928 = 6" by (simp add: weekday_def)
  have r: "get_week_completion_rate rich_db 1 739928 = 100"
    by (simp add: claim_defs)
  have r': "get_week_completion_rate
        (fst (reward_claim rich_db 1 1 739928 ''2026-11-08T12:00:00'')) 1 739928 = 100"
    by (simp add: claim_defs)
  from repeated_invocation_not_idempotent w r r' show ?thesis by simp
qed

end
